theory Spec2Isabelle
  imports Complex_Main "HOL-Library.Sublist"
begin

section \<open>Shared data: strings, numbers, stage labels\<close>

text \<open>
  JavaScript strings are modelled as \<open>string\<close>. The two non-ASCII characters the source
  writes into its messages, the em dash (U+2014) and the rightwards arrow (U+2192), are kept as
  their UTF-8 bytes.
\<close>

definition em_dash :: string where
  "em_dash = [CHR 0xE2, CHR 0x80, CHR 0x94]"

definition arrow :: string where
  "arrow = [CHR 0xE2, CHR 0x86, CHR 0x92]"

text \<open>\<open>Array.prototype.join\<close>.\<close>

fun join :: "string \<Rightarrow> string list \<Rightarrow> string" where
  "join sep [] = []"
| "join sep [x] = x"
| "join sep (x # y # ys) = x @ sep @ join sep (y # ys)"

text \<open>Decimal rendering of a non-negative integer, as a template literal does.\<close>

definition digit :: "nat \<Rightarrow> char" where
  "digit d = ''0123456789'' ! d"

fun show_nat :: "nat \<Rightarrow> string" where
  "show_nat n = (if n < 10 then [digit n] else show_nat (n div 10) @ [digit (n mod 10)])"

declare show_nat.simps [simp del]

text \<open>
  A JavaScript number, as far as the progress computations need it: the quotient of two
  counters is a rational, \<open>0/0\<close> is \<open>NaN\<close> and \<open>n/0\<close> for positive \<open>n\<close> is
  \<open>Infinity\<close>. Finite values are exact rationals: the rounding error of IEEE doubles is
  not modelled.
\<close>

datatype jsnum = NaN | Infinity | Num rat

definition js_div :: "nat \<Rightarrow> nat \<Rightarrow> jsnum" where
  "js_div a b = (if b = 0 then (if a = 0 then NaN else Infinity) else Num (of_nat a / of_nat b))"

fun js_times :: "jsnum \<Rightarrow> rat \<Rightarrow> jsnum" where
  "js_times NaN k = NaN"
| "js_times Infinity k = Infinity"
| "js_times (Num x) k = Num (x * k)"

text \<open>\<open>Math.round\<close> rounds half up, which is \<^const>\<open>round\<close>; it maps \<open>NaN\<close> to \<open>NaN\<close>.\<close>

fun Math_round :: "jsnum \<Rightarrow> jsnum" where
  "Math_round NaN = NaN"
| "Math_round Infinity = Infinity"
| "Math_round (Num x) = Num (of_int (round x))"

text \<open>\<open>STAGE_LABELS[id] ?? id\<close> of \<open>types/config.ts\<close>.\<close>

definition STAGE_LABELS :: "string \<rightharpoonup> string" where
  "STAGE_LABELS = [''graph_traverser'' \<mapsto> ''Graph Traverser'',
                   ''chatml_converter'' \<mapsto> ''ChatML Converter'',
                   ''finetuner'' \<mapsto> ''FineTuner'',
                   ''evaluator'' \<mapsto> ''Evaluator'']"

definition stage_label :: "string \<Rightarrow> string" where
  "stage_label sid = (case STAGE_LABELS sid of Some l \<Rightarrow> l | None \<Rightarrow> sid)"

text \<open>Truthiness of an optional string: \<open>undefined\<close> and the empty string are falsy.\<close>

fun truthy :: "string option \<Rightarrow> bool" where
  "truthy None = False"
| "truthy (Some s) = (s \<noteq> [])"

text \<open>\<open>Array.prototype.indexOf\<close>: the first position of the element, or \<open>-1\<close>.\<close>

fun indexOf_from :: "'a list \<Rightarrow> 'a \<Rightarrow> int \<Rightarrow> int" where
  "indexOf_from [] x i = - 1"
| "indexOf_from (y # ys) x i = (if y = x then i else indexOf_from ys x (i + 1))"

definition indexOf :: "'a list \<Rightarrow> 'a \<Rightarrow> int" where
  "indexOf xs x = indexOf_from xs x 0"


section \<open>Events and results of the transport client (\<open>api/client.ts\<close>)\<close>

text \<open>Values of type \<open>Record<string, unknown>\<close> are kept as their serialised text.\<close>

type_synonym json = string

record StageResult =
  result_success :: bool
  result_error :: "string option"
  result_metadata :: "json option"

text \<open>
  \<open>RunResultResponse\<close>. The fields carry the prefix \<open>res_\<close> because \<open>status\<close> and
  \<open>error\<close> are also fields of \<open>StageDetail\<close>.
\<close>

record RunResultResponse =
  res_run_id :: string
  res_status :: string
  res_success :: bool
  res_context :: "json option"
  res_results :: "StageResult list option"
  res_error :: "string option"
  res_stages :: "string list option"
  res_current_stage :: "string option"

text \<open>
  \<open>WsEvent\<close>, with the \<open>log\<close> variant that \<open>MonitorProgress.tsx\<close> handles by a cast, and
  \<open>Unknown\<close> for a parsed payload whose tag is none of the listed ones.
\<close>

datatype WsEvent =
    RunStart string
  | PipelineStart "string list option"
  | StageStart string
  | StageEnd string bool "string option" "json option"
  | Log string string string
  | Done bool "json option" "StageResult list option"
  | Error string
  | Unknown string


section \<open>Mode A: the fold of \<open>stagesFromWsEvents\<close> (\<open>MonitorProgress.tsx\<close>)\<close>

datatype stage_status = pending | running | completed | failed

text \<open>
  \<open>StageDetail\<close>. The name is optional because the polling path reads \<open>runOrder[i]\<close>
  beyond the end of the list, which is \<open>undefined\<close>; the fold always stores a name.
\<close>

record StageDetail =
  name :: "string option"
  status :: stage_status
  progress :: nat
  error :: "string option"

text \<open>The local variables of the loop.\<close>

record fold_state =
  orderedStages :: "string list"
  stageDetails :: "StageDetail list"
  logs :: "string list"
  completedCount :: nat

text \<open>What the function returns.\<close>

record derived =
  d_stages :: "StageDetail list"
  d_overallProgress :: jsnum
  d_logs :: "string list"

definition pending_details :: "string list \<Rightarrow> StageDetail list" where
  "pending_details order =
     map (\<lambda>sid. \<lparr>name = Some (stage_label sid), status = pending, progress = 0, error = None\<rparr>) order"

definition fold_init :: "string list \<Rightarrow> fold_state" where
  "fold_init runOrder =
     \<lparr>orderedStages = runOrder, stageDetails = pending_details runOrder, logs = [], completedCount = 0\<rparr>"

definition push :: "string \<Rightarrow> fold_state \<Rightarrow> fold_state" where
  "push line st = st\<lparr>logs := logs st @ [line]\<rparr>"

definition stamp :: "string \<Rightarrow> string \<Rightarrow> string \<Rightarrow> string" where
  "stamp ts level msg = ''['' @ ts @ ''] ['' @ level @ ''] '' @ msg"

text \<open>
  One iteration of the loop. \<open>ts\<close> is what \<open>new Date().toISOString().slice(11, 19)\<close>
  returns in this iteration: the wall clock is an input of the fold.
\<close>

fun step :: "string \<Rightarrow> string list \<Rightarrow> fold_state \<Rightarrow> WsEvent \<Rightarrow> fold_state" where
  "step ts runOrder st (RunStart rid) =
     push (stamp ts ''INFO'' ''Run started (live updates via WebSocket)'') st"
| "step ts runOrder st (PipelineStart stages) =
     (let order = (case stages of Some s \<Rightarrow> s | None \<Rightarrow> runOrder)
      in push (stamp ts ''INFO'' (''Pipeline started: '' @ join ('' '' @ arrow @ '' '') order))
           (st\<lparr>orderedStages := order, stageDetails := pending_details order\<rparr>))"
| "step ts runOrder st (StageStart stage) =
     (let idx = indexOf (orderedStages st) stage;
          st1 = (if 0 \<le> idx \<and> idx < int (length (stageDetails st))
                 then st\<lparr>stageDetails := (stageDetails st)[nat idx :=
                        (stageDetails st ! nat idx)
                          \<lparr>name := Some (stage_label stage), status := running, progress := 0\<rparr>]\<rparr>
                 else st)
      in push (stamp ts ''INFO'' (''Stage started: '' @ stage)) st1)"
| "step ts runOrder st (StageEnd stage success err metadata) =
     (let idx = indexOf (orderedStages st) stage;
          st1 = (if 0 \<le> idx \<and> idx < int (length (stageDetails st))
                 then st\<lparr>stageDetails := (stageDetails st)[nat idx :=
                        (stageDetails st ! nat idx)
                          \<lparr>name := Some (stage_label stage),
                           status := (if success then completed else failed),
                           progress := (if success then 100 else 0),
                           error := err\<rparr>],
                      completedCount := (if success then completedCount st + 1 else completedCount st)\<rparr>
                 else st);
          level = (if success then ''INFO'' else ''ERROR'')
      in push (stamp ts level (''Stage '' @ (if success then ''completed'' else ''failed'') @ '': '' @ stage
                 @ (if truthy err then '' '' @ em_dash @ '' '' @ the err else [])))
           st1)"
| "step ts runOrder st (Log level logger message) = push (stamp ts level message) st"
| "step ts runOrder st (Done success ctx results) =
     push (stamp ts (if success then ''INFO'' else ''ERROR'')
            (''Pipeline '' @ (if success then ''completed successfully.'' else ''failed.''))) st"
| "step ts runOrder st (Error message) = push (stamp ts ''ERROR'' message) st"
| "step ts runOrder st (Unknown tag) = st"

text \<open>The loop: iteration \<open>i\<close> reads the clock once, \<open>clock i\<close>.\<close>

fun run_loop :: "(nat \<Rightarrow> string) \<Rightarrow> string list \<Rightarrow> nat \<Rightarrow> fold_state \<Rightarrow> WsEvent list \<Rightarrow> fold_state" where
  "run_loop clock runOrder i st [] = st"
| "run_loop clock runOrder i st (ev # evs) = run_loop clock runOrder (Suc i) (step (clock i) runOrder st ev) evs"

text \<open>\<open>lastEv?.event === 'done' && lastEv.success\<close>.\<close>

fun last_is_successful_done :: "WsEvent list \<Rightarrow> bool" where
  "last_is_successful_done [] = False"
| "last_is_successful_done evs = (case last evs of Done success ctx results \<Rightarrow> success | _ \<Rightarrow> False)"

definition stagesFromWsEvents :: "(nat \<Rightarrow> string) \<Rightarrow> WsEvent list \<Rightarrow> string list \<Rightarrow> derived" where
  "stagesFromWsEvents clock events runOrder =
     (let st = run_loop clock runOrder 0 (fold_init runOrder) events;
          total = (if length (stageDetails st) = 0 then 1 else length (stageDetails st));
          overallProgress = (if total \<noteq> 0 then Math_round (js_times (js_div (completedCount st) total) 100)
                             else Num 0)
      in if last_is_successful_done events
         then \<lparr>d_stages = stageDetails st, d_overallProgress = Num 100, d_logs = logs st\<rparr>
         else \<lparr>d_stages = stageDetails st, d_overallProgress = overallProgress, d_logs = logs st\<rparr>)"

text \<open>The loop run from the initial state: the values of the local variables after the loop.\<close>

definition loop_end :: "(nat \<Rightarrow> string) \<Rightarrow> WsEvent list \<Rightarrow> string list \<Rightarrow> fold_state" where
  "loop_end clock events runOrder = run_loop clock runOrder 0 (fold_init runOrder) events"

subsection \<open>The specification's reading of the fold\<close>

text \<open>
  The overall progress as the specification words it:
  \<open>round(100 * completedCount / max(stageCount, 1))\<close>.
\<close>

definition spec_overall_progress :: "nat \<Rightarrow> nat \<Rightarrow> jsnum" where
  "spec_overall_progress c n = Num (of_int (round (100 * of_nat c / of_nat (max n 1) :: rat)))"




text \<open>Two loop states that agree on everything but the transcript.\<close>

definition same_state :: "fold_state \<Rightarrow> fold_state \<Rightarrow> bool" where
  "same_state s t \<longleftrightarrow> orderedStages s = orderedStages t \<and> stageDetails s = stageDetails t
      \<and> completedCount s = completedCount t"

text \<open>
  Two loop states whose transcripts also agree behind the first ten characters of each
  line, which hold \<open>[HH:MM:SS]\<close>.
\<close>

definition same_but_stamps :: "fold_state \<Rightarrow> fold_state \<Rightarrow> bool" where
  "same_but_stamps s t \<longleftrightarrow> same_state s t \<and> map (drop 10) (logs s) = map (drop 10) (logs t)"

text \<open>Clocks for concrete runs: one that stands still, one that ticks after the first reading.\<close>

definition const_clock :: "string \<Rightarrow> nat \<Rightarrow> string" where
  "const_clock ts k = ts"

definition ticking_clock :: "nat \<Rightarrow> string" where
  "ticking_clock k = (if k = 0 then ''10:00:00'' else ''10:00:01'')"


section \<open>Mode B: the polling callback of \<open>MonitorProgress\<close>\<close>

text \<open>A thrown value: an \<open>Error\<close> with its message, or anything else.\<close>

datatype thrown = JsError string | OtherThrown

definition formatPhase :: "RunResultResponse \<Rightarrow> string" where
  "formatPhase res =
     (let labels = map stage_label (case res_stages res of Some s \<Rightarrow> s | None \<Rightarrow> []);
          phaseName = (if truthy (res_current_stage res)
                       then Some (stage_label (the (res_current_stage res))) else None)
      in if res_status res = ''running'' then
           (if truthy phaseName
            then ''Phase: Running '' @ em_dash @ '' '' @ the phaseName
                   @ (if length labels \<noteq> 0 then '' ('' @ join ('' '' @ arrow @ '' '') labels @ '')'' else [])
            else ''Phase: Running''
                   @ (if length labels \<noteq> 0 then '' '' @ em_dash @ '' '' @ join ('' '' @ arrow @ '' '') labels else []))
         else if res_status res = ''completed'' then ''Phase: Completed''
         else if res_status res = ''failed'' then ''Phase: Failed''
         else ''Status: '' @ res_status res)"

text \<open>\<open>res.results ?? []\<close>.\<close>

definition results_or_empty :: "RunResultResponse \<Rightarrow> StageResult list" where
  "results_or_empty res = (case res_results res of Some rs \<Rightarrow> rs | None \<Rightarrow> [])"

text \<open>The constants \<open>completed\<close> and \<open>total\<close> of one poll, and its text \<open>logMsg\<close>.\<close>

definition poll_completed :: "RunResultResponse \<Rightarrow> nat" where
  "poll_completed res = length (filter result_success (results_or_empty res))"

definition poll_total :: "RunResultResponse \<Rightarrow> nat" where
  "poll_total res = max (max (length (results_or_empty res))
                           (case res_stages res of Some s \<Rightarrow> length s | None \<Rightarrow> 0)) 1"

definition logMsg :: "RunResultResponse \<Rightarrow> string" where
  "logMsg res =
     (let phaseMsg = formatPhase res
      in if res_status res = ''running''
         then ''Poll: status=running '' @ em_dash @ '' '' @ phaseMsg
                @ '' ('' @ show_nat (poll_completed res) @ ''/'' @ show_nat (poll_total res) @ '' stages)''
         else ''Poll: status='' @ res_status res @ '' '' @ em_dash @ '' '' @ phaseMsg
                @ '' ('' @ show_nat (poll_completed res) @ ''/'' @ show_nat (poll_total res) @ '' stages)'')"

text \<open>
  The argument of \<open>setOverallProgress\<close> at a terminal snapshot:
  \<open>res.results?.length ?? 1\<close> is the length of the list when there is one, also when it is
  empty.
\<close>

definition terminal_progress :: "RunResultResponse \<Rightarrow> jsnum" where
  "terminal_progress res =
     (if res_status res = ''completed'' then Num 100
      else Math_round (js_times
             (js_div (length (filter result_success (results_or_empty res)))
                     (case res_results res of Some rs \<Rightarrow> length rs | None \<Rightarrow> 1)) 100))"

text \<open>The argument of \<open>setStages\<close>: \<open>runOrder[i]\<close> is \<open>undefined\<close> beyond the list.\<close>

definition terminal_stages :: "string list \<Rightarrow> RunResultResponse \<Rightarrow> StageDetail list" where
  "terminal_stages runOrder res =
     map (\<lambda>(i, r). \<lparr>name = (if i < length runOrder then Some (stage_label (runOrder ! i)) else None),
                    status = (if result_success r then completed else failed),
                    progress = (if result_success r then 100 else 0),
                    error = result_error r\<rparr>)
         (enumerate 0 (results_or_empty res))"

text \<open>
  The state the callback works on: the three React states, the two refs
  (\<open>pollRef\<close> is \<open>True\<close> while the interval is set) and the calls of \<open>onDone\<close>.
\<close>

record monitor_state =
  m_stages :: "StageDetail list"
  m_overallProgress :: jsnum
  m_logs :: "string list"
  lastLogMsgRef :: "string option"
  pollRef :: bool
  onDone_calls :: "RunResultResponse list"

definition addLog :: "string \<Rightarrow> string \<Rightarrow> monitor_state \<Rightarrow> monitor_state" where
  "addLog ts msg st = st\<lparr>m_logs := m_logs st @ [ts @ '' '' @ msg]\<rparr>"

text \<open>
  One run of the interval callback. \<open>outcome\<close> is what \<open>await getRunStatus(runId)\<close>
  gives, \<open>ts\<close> and \<open>ts'\<close> are the clock readings of the two calls of \<open>addLog\<close>.
\<close>

definition poll_tick ::
  "string list \<Rightarrow> string \<Rightarrow> string \<Rightarrow> monitor_state \<Rightarrow> thrown + RunResultResponse \<Rightarrow> monitor_state" where
  "poll_tick runOrder ts ts' st outcome =
     (case outcome of
        Inl e \<Rightarrow> addLog ts (''Poll error: '' @ (case e of JsError m \<Rightarrow> m | OtherThrown \<Rightarrow> ''Unknown'')) st
      | Inr res \<Rightarrow>
          (let st1 = (if Some (logMsg res) \<noteq> lastLogMsgRef st
                      then addLog ts (logMsg res) (st\<lparr>lastLogMsgRef := Some (logMsg res)\<rparr>)
                      else st)
           in if res_status res = ''running'' then st1
              else if res_status res = ''completed'' \<or> res_status res = ''failed'' then
                (let st2 = st1\<lparr>pollRef := False\<rparr>;
                     st3 = st2\<lparr>m_stages := terminal_stages runOrder res\<rparr>;
                     st4 = st3\<lparr>m_overallProgress := terminal_progress res\<rparr>;
                     st5 = addLog ts'
                             (if res_status res = ''completed'' then ''Pipeline completed.''
                              else ''Pipeline failed: '' @ (case res_error res of Some e \<Rightarrow> e | None \<Rightarrow> ''Unknown''))
                             st4
                 in st5\<lparr>onDone_calls := onDone_calls st5 @ [res]\<rparr>)
              else st1))"


text \<open>The interval fires the callback only while it is set.\<close>

definition interval_fires ::
  "string list \<Rightarrow> string \<Rightarrow> string \<Rightarrow> monitor_state \<Rightarrow> thrown + RunResultResponse \<Rightarrow> monitor_state" where
  "interval_fires runOrder ts ts' st outcome =
     (if pollRef st then poll_tick runOrder ts ts' st outcome else st)"

text \<open>The state when polling starts: the first line is logged, the ref is reset, the interval set.\<close>

definition polling_started :: "string \<Rightarrow> string \<Rightarrow> monitor_state" where
  "polling_started ts runId =
     addLog ts (''Watching run '' @ runId @ ''. Polling for status...'')
       \<lparr>m_stages = [], m_overallProgress = Num 0, m_logs = [], lastLogMsgRef = None,
        pollRef = True, onDone_calls = []\<rparr>"

text \<open>A snapshot with nothing but a status.\<close>

definition snapshot :: "string \<Rightarrow> RunResultResponse" where
  "snapshot s = \<lparr>res_run_id = ''r1'', res_status = s, res_success = False, res_context = None,
                 res_results = None, res_error = None, res_stages = None, res_current_stage = None\<rparr>"


section \<open>The transport client (\<open>api/client.ts\<close>)\<close>

subsection \<open>\<open>getRunStatus\<close>\<close>

text \<open>
  The parsed body of a response: the one object, read as \<open>{ detail?: string }\<close> on the
  failure path and as \<open>RunResultResponse\<close> on the success path.
\<close>

record parsed_body =
  detail :: "string option"
  as_result :: RunResultResponse

text \<open>A response of \<open>fetch\<close>; \<open>body\<close> is what \<open>res.json()\<close> settles to.\<close>

record http_response =
  ok :: bool
  http_status :: nat
  statusText :: string
  body :: "thrown + parsed_body"

definition getRunStatus :: "thrown + http_response \<Rightarrow> thrown + RunResultResponse" where
  "getRunStatus fetched =
     (case fetched of
        Inl e \<Rightarrow> Inl e
      | Inr res \<Rightarrow>
          if \<not> ok res then
            (let d = (case body res of Inl e \<Rightarrow> None | Inr b \<Rightarrow> detail b)
             in Inl (JsError (if truthy d then show_nat (http_status res) @ '': '' @ the d
                              else statusText res)))
          else (case body res of Inl e \<Rightarrow> Inl e | Inr b \<Rightarrow> Inr (as_result b)))"

subsection \<open>\<open>runPipelineViaWebSocket\<close>\<close>

text \<open>What the function does to the outside: the four callbacks and the calls on the socket.\<close>

datatype effect =
    OnRunId string
  | OnEvent WsEvent
  | OnDone RunResultResponse
  | OnError string
  | WsSend json
  | WsClose

text \<open>The two variables of the closure, and the effects so far.\<close>

record ws_state =
  closed :: bool
  runId :: string
  trace :: "effect list"

definition ws_init :: ws_state where
  "ws_init = \<lparr>closed = False, runId = [], trace = []\<rparr>"

definition emit :: "effect \<Rightarrow> ws_state \<Rightarrow> ws_state" where
  "emit e st = st\<lparr>trace := trace st @ [e]\<rparr>"

text \<open>
  A handler returns the new state, or throws: \<open>Inl\<close> carries the thrown value and the
  state at that moment.
\<close>

type_synonym ws_result = "(thrown \<times> ws_state) + ws_state"

text \<open>\<open>ws.close()\<close>; \<open>close_throws\<close> says whether the socket throws on it.\<close>

definition ws_close :: "bool \<Rightarrow> ws_state \<Rightarrow> ws_result" where
  "ws_close close_throws st =
     (if close_throws then Inl (JsError ''close'', emit WsClose st) else Inr (emit WsClose st))"

definition close :: "bool \<Rightarrow> ws_state \<Rightarrow> ws_result" where
  "close close_throws st =
     (if closed st then Inr st
      else (let st1 = st\<lparr>closed := True\<rparr>
            in case ws_close close_throws st1 of
                 Inr st2 \<Rightarrow> Inr st2
               | Inl (e, st2) \<Rightarrow> Inr st2))"

text \<open>\<open>ev.data\<close> of a message: text that \<open>JSON.parse\<close> rejects, or a payload.\<close>

datatype message = Unparseable string | Parsed WsEvent

text \<open>The body of the \<open>try\<close> block of \<open>ws.onmessage\<close>.\<close>

definition onmessage_try :: "bool \<Rightarrow> ws_state \<Rightarrow> message \<Rightarrow> ws_result" where
  "onmessage_try close_throws st msg =
     (case msg of
        Unparseable m \<Rightarrow> Inl (JsError m, st)
      | Parsed payload \<Rightarrow>
          (let st1 = emit (OnEvent payload) st
           in case payload of
                RunStart rid \<Rightarrow> Inr (emit (OnRunId rid) (st1\<lparr>runId := rid\<rparr>))
              | Done success ctx results \<Rightarrow>
                  close close_throws
                    (emit (OnDone \<lparr>res_run_id = runId st1,
                                   res_status = (if success then ''completed'' else ''failed''),
                                   res_success = success, res_context = ctx, res_results = results,
                                   res_error = None, res_stages = None, res_current_stage = None\<rparr>) st1)
              | Error m \<Rightarrow> close close_throws (emit (OnError m) st1)
              | _ \<Rightarrow> Inr st1))"

definition onmessage :: "bool \<Rightarrow> ws_state \<Rightarrow> message \<Rightarrow> ws_result" where
  "onmessage close_throws st msg =
     (if closed st then Inr st
      else (case onmessage_try close_throws st msg of
              Inr st1 \<Rightarrow> Inr st1
            | Inl (e, st1) \<Rightarrow>
                close close_throws
                  (emit (OnError (case e of JsError m \<Rightarrow> m | OtherThrown \<Rightarrow> ''Invalid message'')) st1)))"

definition onerror :: "bool \<Rightarrow> ws_state \<Rightarrow> ws_result" where
  "onerror close_throws st =
     (if \<not> closed st then close close_throws (emit (OnError ''WebSocket error'') st) else Inr st)"

definition onclose :: "bool \<Rightarrow> ws_state \<Rightarrow> ws_result" where
  "onclose close_throws st = (if \<not> closed st then close close_throws st else Inr st)"

definition onopen :: "json \<Rightarrow> ws_state \<Rightarrow> ws_result" where
  "onopen config st = Inr (emit (WsSend config) st)"

text \<open>What can happen to an open session: the four socket events, and the caller's \<open>close()\<close>.\<close>

datatype ws_input = SocketOpen | SocketMessage message | SocketError | SocketClose | CloseCalled

fun handle :: "bool \<Rightarrow> json \<Rightarrow> ws_state \<Rightarrow> ws_input \<Rightarrow> ws_result" where
  "handle close_throws config st SocketOpen = onopen config st"
| "handle close_throws config st (SocketMessage msg) = onmessage close_throws st msg"
| "handle close_throws config st SocketError = onerror close_throws st"
| "handle close_throws config st SocketClose = onclose close_throws st"
| "handle close_throws config st CloseCalled = close close_throws st"

text \<open>
  A session: the inputs handled in order. An exception that leaves a handler does not stop
  the later ones; it is collected in the second component.
\<close>

fun session :: "bool \<Rightarrow> json \<Rightarrow> ws_state \<Rightarrow> ws_input list \<Rightarrow> ws_state \<times> thrown list" where
  "session close_throws config st [] = (st, [])"
| "session close_throws config st (inp # inps) =
     (case handle close_throws config st inp of
        Inr st1 \<Rightarrow> session close_throws config st1 inps
      | Inl (e, st1) \<Rightarrow> (let (st2, errs) = session close_throws config st1 inps in (st2, e # errs)))"





text \<open>The run identifiers passed to \<open>onRunId\<close>, in order.\<close>

fun onRunId_calls :: "effect list \<Rightarrow> string list" where
  "onRunId_calls [] = []"
| "onRunId_calls (OnRunId rid # es) = rid # onRunId_calls es"
| "onRunId_calls (e # es) = onRunId_calls es"

text \<open>An input after which the closure's \<open>closed\<close> flag is set.\<close>

fun closing :: "ws_input \<Rightarrow> bool" where
  "closing (SocketMessage (Unparseable m)) = True"
| "closing (SocketMessage (Parsed (Done success ctx results))) = True"
| "closing (SocketMessage (Parsed (Error m))) = True"
| "closing (SocketMessage msg) = False"
| "closing SocketOpen = False"
| "closing inp = True"

text \<open>The identifiers of the \<open>run_start\<close> events that arrive before the first closing input.\<close>

fun run_starts_while_open :: "ws_input list \<Rightarrow> string list" where
  "run_starts_while_open [] = []"
| "run_starts_while_open (inp # inps) =
     (if closing inp then []
      else (case inp of SocketMessage (Parsed (RunStart rid)) \<Rightarrow> rid # run_starts_while_open inps
                      | _ \<Rightarrow> run_starts_while_open inps))"


section \<open>Run submission (\<open>ConfigurePipeline.tsx\<close>)\<close>

text \<open>\<open>RunResponse\<close> as it arrives: the run identifier may be missing.\<close>

record RunResponse =
  run_id :: "string option"
  run_status :: string
  message :: "string option"

text \<open>The two React states \<open>handleRun\<close> sets, and the calls of \<open>onRun\<close>.\<close>

record configure_state =
  cfg_error :: "string option"
  cfg_running :: bool
  onRun_calls :: "(string \<times> json) list"

text \<open>
  \<open>handleRun\<close> on its request/response branch, taken when the component has no live
  props; \<open>outcome\<close> is what the promise of \<open>runPipeline\<close> settles to.
\<close>

definition handleRun :: "json \<Rightarrow> thrown + RunResponse \<Rightarrow> configure_state \<Rightarrow> configure_state" where
  "handleRun config outcome st =
     (let st1 = st\<lparr>cfg_error := None, cfg_running := True\<rparr>;
          st2 = (case outcome of
                   Inr res \<Rightarrow>
                     if truthy (run_id res)
                     then st1\<lparr>onRun_calls := onRun_calls st1 @ [(the (run_id res), config)]\<rparr>
                     else st1\<lparr>cfg_error := Some (if truthy (message res) then the (message res)
                                                  else ''Run failed'')\<rparr>
                 | Inl e \<Rightarrow>
                     st1\<lparr>cfg_error := Some (case e of JsError m \<Rightarrow> m
                                                    | OtherThrown \<Rightarrow> ''Failed to run pipeline'')\<rparr>)
      in st2\<lparr>cfg_running := False\<rparr>)"

definition configure_init :: configure_state where
  "configure_init = \<lparr>cfg_error = None, cfg_running = False, onRun_calls = []\<rparr>"

text \<open>The response \<open>{status: "rejected", message: "quota exceeded"}\<close>.\<close>

definition rejected_response :: RunResponse where
  "rejected_response = \<lparr>run_id = None, run_status = ''rejected'', message = Some ''quota exceeded''\<rparr>"

text \<open>A 404 response whose body is \<open>{}\<close>.\<close>

definition not_found_response :: http_response where
  "not_found_response =
     \<lparr>ok = False, http_status = 404, statusText = ''Not Found'',
      body = Inr \<lparr>detail = None, as_result = snapshot []\<rparr>\<rparr>"

text \<open>A 404 response whose body is \<open>{"detail": "Run not found"}\<close>.\<close>

definition not_found_with_detail :: http_response where
  "not_found_with_detail =
     \<lparr>ok = False, http_status = 404, statusText = ''Not Found'',
      body = Inr \<lparr>detail = Some ''Run not found'', as_result = snapshot []\<rparr>\<rparr>"

text \<open>A failed snapshot whose list of results is empty.\<close>

definition failed_before_first_stage :: RunResultResponse where
  "failed_before_first_stage = (snapshot ''failed'')\<lparr>res_results := Some []\<rparr>"


section \<open>Properties of the fold\<close>

subsection \<open>The loop, one event at a time\<close>

lemma run_loop_append:
  "run_loop clock ro i st (es @ [ev]) = step (clock (i + length es)) ro (run_loop clock ro i st es) ev"
  by (induction es arbitrary: i st) auto

lemma loop_end_snoc:
  "loop_end c (es @ [ev]) ro = step (c (length es)) ro (loop_end c es ro) ev"
  by (simp add: loop_end_def run_loop_append)

lemma d_stages_eq: "d_stages (stagesFromWsEvents clock es ro) = stageDetails (loop_end clock es ro)"
  by (simp add: stagesFromWsEvents_def loop_end_def Let_def)

lemma d_logs_eq: "d_logs (stagesFromWsEvents clock es ro) = logs (loop_end clock es ro)"
  by (simp add: stagesFromWsEvents_def loop_end_def Let_def)



subsection \<open>\<open>indexOf\<close>\<close>

lemma indexOf_from_absent: "x \<notin> set xs \<Longrightarrow> indexOf_from xs x i = - 1"
  by (induction xs arbitrary: i) auto




subsection \<open>One detail per stage of the order\<close>

lemma step_length_inv:
  "length (stageDetails st) = length (orderedStages st) \<Longrightarrow>
   length (stageDetails (step ts ro st ev)) = length (orderedStages (step ts ro st ev))"
  by (cases ev) (simp_all add: push_def Let_def pending_details_def)

lemma run_loop_length_inv:
  "length (stageDetails st) = length (orderedStages st) \<Longrightarrow>
   length (stageDetails (run_loop c ro i st es)) = length (orderedStages (run_loop c ro i st es))"
proof (induction es arbitrary: i st)
  case Nil
  then show ?case by simp
next
  case (Cons ev es)
  from Cons.prems
  have "length (stageDetails (step (c i) ro st ev)) = length (orderedStages (step (c i) ro st ev))"
    by (rule step_length_inv)
  then show ?case using Cons.IH by simp
qed

subsection \<open>The counter\<close>




subsection \<open>The progress\<close>

lemma progress_code_eq_spec:
  "Math_round (js_times (js_div c (if n = 0 then 1 else n)) 100) = spec_overall_progress c n"
proof (cases "n = 0")
  case True
  then show ?thesis by (simp add: js_div_def spec_overall_progress_def mult.commute)
next
  case False
  then have "max n 1 = n" by simp
  with False show ?thesis by (simp add: js_div_def spec_overall_progress_def mult.commute)
qed

lemma d_overallProgress_eq:
  "d_overallProgress (stagesFromWsEvents clock es ro) =
     (if last_is_successful_done es then Num 100
      else spec_overall_progress (completedCount (loop_end clock es ro))
             (length (stageDetails (loop_end clock es ro))))"
  using progress_code_eq_spec [of "completedCount (loop_end clock es ro)"
          "length (stageDetails (loop_end clock es ro))"]
  by (auto simp: stagesFromWsEvents_def loop_end_def Let_def)



subsection \<open>What the fold does not read from the clock\<close>

lemma step_same_state:
  "same_state s t \<Longrightarrow> same_state (step ts ro s ev) (step ts' ro t ev)"
  by (cases ev) (simp_all add: same_state_def push_def Let_def)

lemma run_loop_same_state:
  "same_state s t \<Longrightarrow> same_state (run_loop c ro i s es) (run_loop c' ro j t es)"
proof (induction es arbitrary: i j s t)
  case Nil
  then show ?case by simp
next
  case (Cons ev es)
  from Cons.prems have "same_state (step (c i) ro s ev) (step (c' j) ro t ev)"
    by (rule step_same_state)
  then show ?case using Cons.IH by simp
qed

lemma loop_end_same_state: "same_state (loop_end c es ro) (loop_end c' es ro)"
  unfolding loop_end_def by (rule run_loop_same_state) (simp add: same_state_def)

lemma drop_stamp: "length ts = 8 \<Longrightarrow> drop 10 (stamp ts level msg) = '' ['' @ level @ ''] '' @ msg"
  by (simp add: stamp_def)

lemma step_same_but_stamps:
  assumes "same_but_stamps s t" "length ts = 8" "length ts' = 8"
  shows "same_but_stamps (step ts ro s ev) (step ts' ro t ev)"
  using assms
  by (cases ev) (simp_all add: same_but_stamps_def same_state_def push_def Let_def drop_stamp)

lemma run_loop_same_but_stamps:
  assumes "same_but_stamps s t" "\<And>k. length (c k) = 8" "\<And>k. length (c' k) = 8"
  shows "same_but_stamps (run_loop c ro i s es) (run_loop c' ro j t es)"
  using assms(1)
proof (induction es arbitrary: i j s t)
  case Nil
  then show ?case by simp
next
  case (Cons ev es)
  have "same_but_stamps (step (c i) ro s ev) (step (c' j) ro t ev)"
    using Cons.prems assms(2,3) by (rule step_same_but_stamps)
  then show ?case using Cons.IH by simp
qed

lemma run_loop_cong:
  "(\<And>k. k < length es \<Longrightarrow> c (i + k) = c' (i + k)) \<Longrightarrow>
   run_loop c ro i st es = run_loop c' ro i st es"
proof (induction es arbitrary: i st)
  case Nil
  then show ?case by simp
next
  case (Cons ev es)
  have h0: "c i = c' i" using Cons.prems [of 0] by simp
  have "\<And>k. k < length es \<Longrightarrow> c (Suc i + k) = c' (Suc i + k)"
    using Cons.prems [of "Suc k" for k] by simp
  then have "run_loop c ro (Suc i) (step (c' i) ro st ev) es
           = run_loop c' ro (Suc i) (step (c' i) ro st ev) es"
    by (rule Cons.IH)
  then show ?case using h0 by simp
qed

text \<open>
  What a replay preserves. Two runs of the fold over the same prefix of the events and the
  same stage order give the same stage list and the same overall progress. The transcripts
  have the same lines apart from the time at the head of each line, which is read from the
  wall clock while the fold runs (\<open>c\<close> and \<open>c'\<close> are the readings of the two runs, eight
  characters each); the whole output is identical when the two runs read the same times.
\<close>

theorem fold_replay_same_but_stamps:
  "d_stages (stagesFromWsEvents c (take n es) ro) = d_stages (stagesFromWsEvents c' (take n es) ro)
   \<and> d_overallProgress (stagesFromWsEvents c (take n es) ro)
       = d_overallProgress (stagesFromWsEvents c' (take n es) ro)
   \<and> ((\<forall>k. length (c k) = 8 \<and> length (c' k) = 8) \<longrightarrow>
        map (drop 10) (d_logs (stagesFromWsEvents c (take n es) ro))
        = map (drop 10) (d_logs (stagesFromWsEvents c' (take n es) ro)))
   \<and> ((\<forall>k < length (take n es). c k = c' k) \<longrightarrow>
        stagesFromWsEvents c (take n es) ro = stagesFromWsEvents c' (take n es) ro)"
proof -
  let ?es = "take n es"
  have ss: "same_state (loop_end c ?es ro) (loop_end c' ?es ro)" by (rule loop_end_same_state)
  have 1: "d_stages (stagesFromWsEvents c ?es ro) = d_stages (stagesFromWsEvents c' ?es ro)"
    using ss by (simp add: d_stages_eq same_state_def)
  have 2: "d_overallProgress (stagesFromWsEvents c ?es ro) = d_overallProgress (stagesFromWsEvents c' ?es ro)"
    using ss by (simp add: d_overallProgress_eq same_state_def)
  have 3: "map (drop 10) (d_logs (stagesFromWsEvents c ?es ro))
         = map (drop 10) (d_logs (stagesFromWsEvents c' ?es ro))"
    if "\<forall>k. length (c k) = 8 \<and> length (c' k) = 8"
  proof -
    have "same_but_stamps (fold_init ro) (fold_init ro)"
      by (simp add: same_but_stamps_def same_state_def)
    then have "same_but_stamps (loop_end c ?es ro) (loop_end c' ?es ro)"
      unfolding loop_end_def using that by (intro run_loop_same_but_stamps) simp_all
    then show ?thesis by (simp add: d_logs_eq same_but_stamps_def)
  qed
  have 4: "stagesFromWsEvents c ?es ro = stagesFromWsEvents c' ?es ro"
    if "\<forall>k < length ?es. c k = c' k"
  proof -
    have "run_loop c ro 0 (fold_init ro) ?es = run_loop c' ro 0 (fold_init ro) ?es"
      using that by (intro run_loop_cong) simp
    then show ?thesis by (simp add: stagesFromWsEvents_def)
  qed
  from 1 2 3 4 show ?thesis by blast
qed

theorem fold_replay_same_but_stamps_witness:
  "stagesFromWsEvents ticking_clock (take 1 [RunStart ''r1'', StageStart ''a'']) [''a'']
     = stagesFromWsEvents (const_clock ''10:00:00'') (take 1 [RunStart ''r1'', StageStart ''a'']) [''a'']
   \<and> map (drop 10) (d_logs (stagesFromWsEvents ticking_clock (take 2 [RunStart ''r1'', StageStart ''a'']) [''a'']))
     = map (drop 10) (d_logs (stagesFromWsEvents (const_clock ''10:00:00'')
                                (take 2 [RunStart ''r1'', StageStart ''a'']) [''a'']))"
proof -
  have len: "\<forall>k. length (ticking_clock k) = 8 \<and> length (const_clock ''10:00:00'' k) = 8"
    by (simp add: ticking_clock_def const_clock_def)
  have agree: "\<forall>k < length (take 1 [RunStart ''r1'', StageStart ''a'']).
                 ticking_clock k = const_clock ''10:00:00'' k"
    by (simp add: ticking_clock_def const_clock_def)
  from fold_replay_same_but_stamps [of ticking_clock 1 "[RunStart ''r1'', StageStart ''a'']" "[''a'']"
         "const_clock ''10:00:00''"] agree
  have a: "stagesFromWsEvents ticking_clock (take 1 [RunStart ''r1'', StageStart ''a'']) [''a'']
     = stagesFromWsEvents (const_clock ''10:00:00'') (take 1 [RunStart ''r1'', StageStart ''a'']) [''a'']"
    by blast
  from fold_replay_same_but_stamps [of ticking_clock 2 "[RunStart ''r1'', StageStart ''a'']" "[''a'']"
         "const_clock ''10:00:00''"] len
  have b: "map (drop 10) (d_logs (stagesFromWsEvents ticking_clock (take 2 [RunStart ''r1'', StageStart ''a'']) [''a'']))
     = map (drop 10) (d_logs (stagesFromWsEvents (const_clock ''10:00:00'')
                                (take 2 [RunStart ''r1'', StageStart ''a'']) [''a'']))"
    by blast
  from a b show ?thesis by blast
qed

text \<open>
  Claim C2 fails on the code. Replaying the same log is not idempotent: the same one-event
  log over the same stage order, folded once when the clock reads 10:00:00 and once when it
  reads 10:00:01, gives the same stage list and the same progress but two different
  transcripts, because every iteration of the loop stamps its line with \<open>new Date()\<close>.
\<close>

theorem fold_replay_changes_transcript:
  "d_logs (stagesFromWsEvents (const_clock ''10:00:00'') [RunStart ''r1''] [''graph_traverser''])
     = [''[10:00:00] [INFO] Run started (live updates via WebSocket)'']
   \<and> d_logs (stagesFromWsEvents (const_clock ''10:00:01'') [RunStart ''r1''] [''graph_traverser''])
     = [''[10:00:01] [INFO] Run started (live updates via WebSocket)'']
   \<and> stagesFromWsEvents (const_clock ''10:00:00'') [RunStart ''r1''] [''graph_traverser'']
     \<noteq> stagesFromWsEvents (const_clock ''10:00:01'') [RunStart ''r1''] [''graph_traverser'']"
  by (simp add: stagesFromWsEvents_def fold_init_def pending_details_def push_def Let_def
        stamp_def const_clock_def)

subsection \<open>Stage statuses, one event later\<close>






subsection \<open>Events that name an unknown stage\<close>

lemma step_unknown_stage:
  assumes "stage \<notin> set (orderedStages st)"
    and "ev = StageStart stage \<or> ev = StageEnd stage success err md"
  shows "\<exists>line. step ts ro st ev = st\<lparr>logs := logs st @ [line]\<rparr>"
  using assms by (auto simp: indexOf_def indexOf_from_absent push_def Let_def)

text \<open>
  Claim C4. After any event sequence, a \<open>stage_start\<close> or \<open>stage_end\<close> whose stage is
  not in the current stage order leaves the stage list, the completed-stage counter and the
  order as they are, and appends exactly one line to the transcript.
\<close>

theorem unknown_stage_only_logged:
  assumes "stage \<notin> set (orderedStages (loop_end clock es ro))"
    and "ev = StageStart stage \<or> ev = StageEnd stage success err md"
  shows "d_stages (stagesFromWsEvents clock (es @ [ev]) ro) = d_stages (stagesFromWsEvents clock es ro)
       \<and> completedCount (loop_end clock (es @ [ev]) ro) = completedCount (loop_end clock es ro)
       \<and> orderedStages (loop_end clock (es @ [ev]) ro) = orderedStages (loop_end clock es ro)
       \<and> (\<exists>line. d_logs (stagesFromWsEvents clock (es @ [ev]) ro)
                    = d_logs (stagesFromWsEvents clock es ro) @ [line])"
proof -
  from step_unknown_stage [OF assms] obtain line where
    "step (clock (length es)) ro (loop_end clock es ro) ev
       = (loop_end clock es ro)\<lparr>logs := logs (loop_end clock es ro) @ [line]\<rparr>"
    by blast
  then show ?thesis by (simp add: d_stages_eq d_logs_eq loop_end_snoc)
qed

theorem unknown_stage_only_logged_witness:
  "''evaluator'' \<notin> set (orderedStages (loop_end ticking_clock [PipelineStart (Some [''finetuner''])] [''graph_traverser'']))
   \<and> d_stages (stagesFromWsEvents ticking_clock
        ([PipelineStart (Some [''finetuner''])] @ [StageEnd ''evaluator'' True None None]) [''graph_traverser''])
     = d_stages (stagesFromWsEvents ticking_clock [PipelineStart (Some [''finetuner''])] [''graph_traverser''])
   \<and> completedCount (loop_end ticking_clock
        ([PipelineStart (Some [''finetuner''])] @ [StageEnd ''evaluator'' True None None]) [''graph_traverser''])
     = completedCount (loop_end ticking_clock [PipelineStart (Some [''finetuner''])] [''graph_traverser''])"
proof -
  have h: "''evaluator'' \<notin> set (orderedStages (loop_end ticking_clock [PipelineStart (Some [''finetuner''])] [''graph_traverser'']))"
    by (simp add: loop_end_def fold_init_def push_def Let_def)
  have e: "StageEnd ''evaluator'' True None None = StageStart ''evaluator''
           \<or> StageEnd ''evaluator'' True None None = StageEnd ''evaluator'' True None None"
    by simp
  from unknown_stage_only_logged [OF h e] h show ?thesis by blast
qed

section \<open>Properties of the polling callback\<close>

subsection \<open>The text of a poll\<close>
















subsection \<open>The progress at a terminal snapshot\<close>

text \<open>With at least one result the progress of a terminal snapshot is an integer from 0 to 100.\<close>

lemma terminal_progress_nonempty:
  assumes "res_results r = Some rs" "rs \<noteq> []"
  shows "\<exists>k. terminal_progress r = Num (of_int k) \<and> 0 \<le> k \<and> k \<le> 100"
proof (cases "res_status r = ''completed''")
  case True
  then have "terminal_progress r = Num (of_int 100)" by (simp add: terminal_progress_def)
  then show ?thesis by (intro exI [of _ 100]) simp
next
  case False
  let ?c = "length (filter result_success rs)"
  let ?q = "of_nat ?c * 100 / of_nat (length rs) :: rat"
  have pos: "(0::rat) < of_nat (length rs)" using assms(2) by simp
  have "?c \<le> length rs" by simp
  then have "(of_nat ?c :: rat) \<le> of_nat (length rs)" by (simp only: of_nat_le_iff)
  then have "(of_nat ?c :: rat) * 100 \<le> 100 * of_nat (length rs)" by simp
  then have up: "?q \<le> 100" using pos by (simp only: pos_divide_le_eq)
  have lo: "0 \<le> ?q" by simp
  have r0: "0 \<le> round ?q" using round_mono [OF lo] by (simp only: round_0)
  have r1: "round ?q \<le> 100" using round_mono [OF up] by (simp only: round_numeral)
  from False assms have "terminal_progress r = Num (of_int (round ?q))"
    by (simp add: terminal_progress_def results_or_empty_def js_div_def)
  with r0 r1 show ?thesis by blast
qed

text \<open>
  Claim C10 fails on the code. A snapshot with status \<open>failed\<close> and an empty list of
  results makes the denominator \<open>res.results?.length ?? 1\<close> zero (\<open>??\<close> replaces only
  a missing list), the quotient is \<open>0/0\<close>, and the overall progress the callback stores is
  \<open>NaN\<close>.
\<close>

theorem failed_snapshot_without_results_is_NaN:
  "res_status failed_before_first_stage = ''failed''
   \<and> res_results failed_before_first_stage = Some []
   \<and> terminal_progress failed_before_first_stage = NaN
   \<and> m_overallProgress (interval_fires [''graph_traverser''] ''10:00:02'' ''10:00:02''
        (polling_started ''10:00:00'' ''r1'') (Inr failed_before_first_stage)) = NaN"
  by (simp add: failed_before_first_stage_def snapshot_def terminal_progress_def results_or_empty_def
        js_div_def interval_fires_def poll_tick_def polling_started_def addLog_def Let_def)


section \<open>Properties of the live channel\<close>

lemma close_eq:
  "close ct st = Inr (if closed st then st else emit WsClose (st\<lparr>closed := True\<rparr>))"
  by (simp add: close_def ws_close_def Let_def)

lemma closed_emit [simp]: "closed (emit e st) = closed st"
  by (simp add: emit_def)

lemma trace_emit [simp]: "trace (emit e st) = trace st @ [e]"
  by (simp add: emit_def)

lemma runId_emit [simp]: "runId (emit e st) = runId st"
  by (simp add: emit_def)

lemma onRunId_calls_append: "onRunId_calls (xs @ ys) = onRunId_calls xs @ onRunId_calls ys"
  by (induction xs rule: onRunId_calls.induct) simp_all


lemma onmessage_eq:
  "\<not> closed st \<Longrightarrow> onmessage ct st msg = Inr
     (case msg of
        Unparseable m \<Rightarrow> emit WsClose ((emit (OnError m) st)\<lparr>closed := True\<rparr>)
      | Parsed payload \<Rightarrow>
         (case payload of
            RunStart rid \<Rightarrow> emit (OnRunId rid) ((emit (OnEvent payload) st)\<lparr>runId := rid\<rparr>)
          | Done success ctx results \<Rightarrow>
              emit WsClose ((emit (OnDone \<lparr>res_run_id = runId st,
                                   res_status = (if success then ''completed'' else ''failed''),
                                   res_success = success, res_context = ctx, res_results = results,
                                   res_error = None, res_stages = None, res_current_stage = None\<rparr>)
                     (emit (OnEvent payload) st))\<lparr>closed := True\<rparr>)
          | Error m \<Rightarrow> emit WsClose ((emit (OnError m) (emit (OnEvent payload) st))\<lparr>closed := True\<rparr>)
          | _ \<Rightarrow> emit (OnEvent payload) st))"
  by (cases msg; cases "case msg of Parsed p \<Rightarrow> p | _ \<Rightarrow> Unknown []")
     (simp_all add: onmessage_def onmessage_try_def close_eq Let_def)


lemma session_Inr: "handle ct cfg st inp = Inr st' \<Longrightarrow> session ct cfg st (inp # inps) = session ct cfg st' inps"
  by simp








subsection \<open>The calls of \<open>onRunId\<close>\<close>

lemma handle_open_closing:
  assumes "\<not> closed st" "closing inp"
  shows "\<exists>st'. handle ct cfg st inp = Inr st' \<and> closed st' \<and> onRunId_calls (trace st') = onRunId_calls (trace st)"
proof (cases inp)
  case (SocketMessage msg)
  with assms show ?thesis
    by (cases msg; cases "case msg of Parsed p \<Rightarrow> p | _ \<Rightarrow> Unknown []")
       (simp_all add: onmessage_eq onRunId_calls_append)
qed (use assms in \<open>simp_all add: onerror_def onclose_def close_eq onRunId_calls_append\<close>)

lemma handle_open_not_closing:
  assumes "\<not> closed st" "\<not> closing inp"
  shows "\<exists>st'. handle ct cfg st inp = Inr st' \<and> \<not> closed st'
      \<and> onRunId_calls (trace st') = onRunId_calls (trace st) @
           (case inp of SocketMessage (Parsed (RunStart rid)) \<Rightarrow> [rid] | _ \<Rightarrow> [])"
proof (cases inp)
  case (SocketMessage msg)
  with assms show ?thesis
    by (cases msg; cases "case msg of Parsed p \<Rightarrow> p | _ \<Rightarrow> Unknown []")
       (simp_all add: onmessage_eq onRunId_calls_append)
qed (use assms in \<open>simp_all add: onopen_def onRunId_calls_append\<close>)

lemma handle_closed_runids:
  assumes "closed st"
  shows "\<exists>st'. handle ct cfg st inp = Inr st' \<and> closed st' \<and> onRunId_calls (trace st') = onRunId_calls (trace st)"
  using assms
  by (cases inp) (simp_all add: onopen_def onmessage_def onerror_def onclose_def close_eq onRunId_calls_append)

lemma session_closed_runids:
  assumes "closed st"
  shows "onRunId_calls (trace (fst (session ct cfg st ins))) = onRunId_calls (trace st)"
  using assms
proof (induction ins arbitrary: st)
  case Nil
  then show ?case by simp
next
  case (Cons inp ins)
  from handle_closed_runids [OF Cons.prems] obtain st' where
    h: "handle ct cfg st inp = Inr st'" "closed st'" "onRunId_calls (trace st') = onRunId_calls (trace st)" by blast
  from Cons.IH [OF h(2)] h show ?case by simp
qed

lemma session_open_runids:
  assumes "\<not> closed st"
  shows "onRunId_calls (trace (fst (session ct cfg st ins))) = onRunId_calls (trace st) @ run_starts_while_open ins"
  using assms
proof (induction ins arbitrary: st)
  case Nil
  then show ?case by simp
next
  case (Cons inp ins)
  show ?case
  proof (cases "closing inp")
    case True
    from handle_open_closing [OF Cons.prems True] obtain st' where
      h: "handle ct cfg st inp = Inr st'" "closed st'" "onRunId_calls (trace st') = onRunId_calls (trace st)" by blast
    from session_closed_runids [OF h(2), of ct cfg ins] h True show ?thesis by simp
  next
    case False
    from handle_open_not_closing [OF Cons.prems False] obtain st' where
      h: "handle ct cfg st inp = Inr st'" "\<not> closed st'"
         "onRunId_calls (trace st') = onRunId_calls (trace st) @
           (case inp of SocketMessage (Parsed (RunStart rid)) \<Rightarrow> [rid] | _ \<Rightarrow> [])" by blast
    from Cons.IH [OF h(2)] h False show ?thesis
      by (simp split: ws_input.splits message.splits WsEvent.splits)
  qed
qed

text \<open>
  Claim C6, as the code has it. \<open>onRunId\<close> is invoked once for every \<open>run_start\<close>
  event that arrives while the channel is open, with the identifier of that event: the calls
  are exactly the \<open>run_start\<close> events before the first input that closes the channel.
\<close>

theorem onRunId_per_run_start: "onRunId_calls (trace (fst (session ct cfg ws_init ins))) = run_starts_while_open ins"
  using session_open_runids [of ws_init ct cfg ins] by (simp add: ws_init_def)

theorem onRunId_per_run_start_witness:
  "onRunId_calls (trace (fst (session False ''{}'' ws_init
      [SocketOpen, SocketMessage (Parsed (RunStart ''r1'')), SocketMessage (Parsed (Done True None None)),
       SocketMessage (Parsed (RunStart ''r2''))]))) = [''r1'']"
  using onRunId_per_run_start [of False "''{}''"
      "[SocketOpen, SocketMessage (Parsed (RunStart ''r1'')), SocketMessage (Parsed (Done True None None)),
       SocketMessage (Parsed (RunStart ''r2''))]"]
  by simp

text \<open>
  Claim C6 as stated fails: in a session that receives two \<open>run_start\<close> events,
  \<open>onRunId\<close> is invoked twice.
\<close>

theorem onRunId_twice_counterexample:
  "onRunId_calls (trace (fst (session False ''{}'' ws_init
      [SocketOpen, SocketMessage (Parsed (RunStart ''r1'')), SocketMessage (Parsed (RunStart ''r2''))])))
   = [''r1'', ''r2'']"
  by (simp add: ws_init_def onopen_def onmessage_def onmessage_try_def emit_def Let_def)


section \<open>Properties of \<open>getRunStatus\<close>\<close>

text \<open>
  Claim C8, as the code has it. On a non-success response whose body has a non-empty
  \<open>detail\<close>, \<open>getRunStatus\<close> fails with the status code, a colon and the detail;
  when the body has no detail (or an empty one, or is not JSON) it fails with the status text
  of the response.
\<close>

theorem getRunStatus_failure_message:
  assumes "\<not> ok res"
  shows "(body res = Inr b \<and> detail b = Some d \<and> d \<noteq> [] \<longrightarrow>
            getRunStatus (Inr res) = Inl (JsError (show_nat (http_status res) @ '': '' @ d)))
       \<and> (body res = Inl e \<or> body res = Inr b \<and> (detail b = None \<or> detail b = Some []) \<longrightarrow>
            getRunStatus (Inr res) = Inl (JsError (statusText res)))"
  using assms by (auto simp: getRunStatus_def Let_def)

theorem getRunStatus_failure_message_witness:
  "\<not> ok not_found_with_detail
   \<and> getRunStatus (Inr not_found_with_detail) = Inl (JsError ''404: Run not found'')"
proof -
  have h: "\<not> ok not_found_with_detail" by (simp add: not_found_with_detail_def)
  have b: "body not_found_with_detail = Inr \<lparr>detail = Some ''Run not found'', as_result = snapshot []\<rparr>
           \<and> detail \<lparr>detail = Some ''Run not found'', as_result = snapshot []\<rparr> = Some ''Run not found''
           \<and> ''Run not found'' \<noteq> []"
    by (simp add: not_found_with_detail_def)
  have n: "show_nat (http_status not_found_with_detail) = ''404''"
    by (simp add: not_found_with_detail_def show_nat.simps digit_def)
  from getRunStatus_failure_message [OF h, of "\<lparr>detail = Some ''Run not found'', as_result = snapshot []\<rparr>"
         "''Run not found''"] b
  have "getRunStatus (Inr not_found_with_detail)
          = Inl (JsError (show_nat (http_status not_found_with_detail) @ '': '' @ ''Run not found''))"
    by blast
  with h n show ?thesis by simp
qed

text \<open>
  Claim C8 as stated fails: on a 404 response whose body is \<open>{}\<close> the failure message
  is the status text \<open>Not Found\<close>, which does not contain \<open>404\<close>.
\<close>

theorem getRunStatus_no_detail_counterexample:
  "\<not> ok not_found_response
   \<and> body not_found_response = Inr \<lparr>detail = None, as_result = snapshot []\<rparr>
   \<and> getRunStatus (Inr not_found_response) = Inl (JsError ''Not Found'')
   \<and> \<not> sublist (show_nat (http_status not_found_response)) ''Not Found''"
  by (simp add: not_found_response_def getRunStatus_def show_nat.simps digit_def sublist_Cons_right)


section \<open>Properties of the submission\<close>

text \<open>
  Claim C9. When the response of a run start has no run identifier, \<open>onRun\<close> is not
  invoked and the error shown is the message of the response when it has one (a response
  with no message, or an empty one, shows \<open>Run failed\<close>); the response
  \<open>{status: "rejected", message: "quota exceeded"}\<close> shows exactly \<open>quota exceeded\<close>.
\<close>

theorem submission_without_run_id:
  assumes "\<not> truthy (run_id res)"
  shows "onRun_calls (handleRun config (Inr res) st) = onRun_calls st
       \<and> cfg_error (handleRun config (Inr res) st)
           = Some (if truthy (message res) then the (message res) else ''Run failed'')
       \<and> (message res = Some m \<and> m \<noteq> [] \<longrightarrow> cfg_error (handleRun config (Inr res) st) = Some m)
       \<and> handleRun config (Inr rejected_response) configure_init
           = \<lparr>cfg_error = Some ''quota exceeded'', cfg_running = False, onRun_calls = []\<rparr>"
  using assms by (auto simp: handleRun_def Let_def rejected_response_def configure_init_def)

theorem submission_without_run_id_witness:
  "\<not> truthy (run_id rejected_response)
   \<and> onRun_calls (handleRun ''{}'' (Inr rejected_response) configure_init) = onRun_calls configure_init
   \<and> cfg_error (handleRun ''{}'' (Inr rejected_response) configure_init) = Some ''quota exceeded''"
proof -
  have h: "\<not> truthy (run_id rejected_response)" by (simp add: rejected_response_def)
  have m: "message rejected_response = Some ''quota exceeded'' \<and> ''quota exceeded'' \<noteq> []"
    by (simp add: rejected_response_def)
  from submission_without_run_id [OF h, of "''{}''" configure_init "''quota exceeded''"] h m
  show ?thesis by blast
qed

end
